theory Spec2Isabelle
  imports Main "HOL-Library.Multiset"
begin

section \<open>Data model (types/course.ts)\<close>

text \<open>
  \<^verbatim>\<open>status: 'draft' | 'published' | 'archived'\<close> is a datatype. An optional field
  (\<^verbatim>\<open>description?\<close>, \<^verbatim>\<open>publishedAt?\<close>) is an \<open>option\<close>, \<open>None\<close> standing for
  \<^verbatim>\<open>undefined\<close>. \<^verbatim>\<open>duration\<close> is the integer number of minutes of the data model.
  The field \<^verbatim>\<open>id\<close> is called \<open>id'\<close>, since \<open>id\<close> is the identity function of HOL.
\<close>

datatype course_status = Draft | Published | Archived

record course =
  id' :: string
  title :: string
  description :: "string option"
  duration :: int
  status :: course_status
  createdAt :: string
  publishedAt :: "string option"

text \<open>\<^verbatim>\<open>CourseFormData\<close>, the argument of \<^verbatim>\<open>createCourse\<close>.\<close>

record form_data =
  form_title :: string
  form_description :: "string option"
  form_duration :: int

text \<open>
  \<^verbatim>\<open>Partial<CourseFormData> & { status?: Course['status'] }\<close>, the argument of
  \<^verbatim>\<open>updateCourse\<close>: \<open>None\<close> is a key that the object does not have. The optional
  \<^verbatim>\<open>description\<close> may be present and hold \<^verbatim>\<open>undefined\<close>, which is \<open>Some None\<close>.
\<close>

record update_data =
  upd_title :: "string option"
  upd_description :: "string option option"
  upd_duration :: "int option"
  upd_status :: "course_status option"

text \<open>The objects the service throws: \<^verbatim>\<open>{ status: 400, message: 'Invalid data' }\<close>.\<close>

datatype api_error = ApiError (http_status: nat) (message: string)

section \<open>The mocked API (services/courseApi.ts)\<close>

text \<open>
  The array kept under the storage key \<^verbatim>\<open>courses\<close> is passed in and returned: every
  function yields its result (\<open>Inl\<close> what it throws) and the array that the storage
  holds afterwards. The random delay is left out. The fresh identifier
  (\<^verbatim>\<open>Math.random().toString(36).substr(2, 9)\<close>) and the clock
  (\<^verbatim>\<open>new Date().toISOString()\<close>) are arguments.
\<close>

text \<open>\<^verbatim>\<open>Array.prototype.findIndex\<close>: the first index whose element satisfies the
  predicate, \<open>-1\<close> when there is none.\<close>

fun findIndex :: "('a \<Rightarrow> bool) \<Rightarrow> 'a list \<Rightarrow> int" where
  "findIndex P [] = -1"
| "findIndex P (x # xs) =
     (if P x then 0
      else (let r = findIndex P xs in if r = -1 then -1 else r + 1))"

text \<open>\<^verbatim>\<open>!s\<close> for an optional string: \<^verbatim>\<open>undefined\<close> and the empty string are falsy.\<close>

definition falsy :: "string option \<Rightarrow> bool" where
  "falsy s = (case s of None \<Rightarrow> True | Some t \<Rightarrow> t = [])"

definition createCourse ::
  "string \<Rightarrow> string \<Rightarrow> form_data \<Rightarrow> course list \<Rightarrow> (api_error + course) \<times> course list" where
  "createCourse newId now data stored =
     (if form_title data = [] \<or> form_duration data \<le> 0
      then (Inl (ApiError 400 ''Invalid data''), stored)
      else
        (let newCourse = \<lparr> id' = newId, title = form_title data,
                            description = form_description data,
                            duration = form_duration data, status = Draft,
                            createdAt = now, publishedAt = None \<rparr>
         in (Inr newCourse, stored @ [newCourse])))"

text \<open>The spread \<^verbatim>\<open>{ ...courses[idx], ...data }\<close>: a key of \<^verbatim>\<open>data\<close> wins.\<close>

definition spread :: "course \<Rightarrow> update_data \<Rightarrow> course" where
  "spread c data =
     c \<lparr> title := (case upd_title data of None \<Rightarrow> title c | Some t \<Rightarrow> t),
         description := (case upd_description data of None \<Rightarrow> description c | Some d \<Rightarrow> d),
         duration := (case upd_duration data of None \<Rightarrow> duration c | Some n \<Rightarrow> n),
         status := (case upd_status data of None \<Rightarrow> status c | Some s \<Rightarrow> s) \<rparr>"

definition updateCourse ::
  "string \<Rightarrow> string \<Rightarrow> update_data \<Rightarrow> course list \<Rightarrow> (api_error + course) \<times> course list" where
  "updateCourse ident now data stored =
     (let idx = findIndex (\<lambda>c. id' c = ident) stored in
      if idx = -1 then (Inl (ApiError 404 ''Course not found''), stored)
      else if status (stored ! nat idx) = Archived
      then (Inl (ApiError 403 ''Cannot edit archived course''), stored)
      else
        (let merged = spread (stored ! nat idx) data;
             updated = (if upd_status data = Some Published \<and> falsy (publishedAt merged)
                        then merged \<lparr> publishedAt := Some now \<rparr> else merged)
         in (Inr updated, stored[nat idx := updated])))"

text \<open>What \<^verbatim>\<open>updateCourse\<close> writes in the place of the course \<open>c\<close> that it found: the
  spread, then the stamp.\<close>

definition updatedCourse :: "string \<Rightarrow> update_data \<Rightarrow> course \<Rightarrow> course" where
  "updatedCourse now data c =
     (if upd_status data = Some Published \<and> falsy (publishedAt (spread c data))
      then (spread c data) \<lparr> publishedAt := Some now \<rparr> else spread c data)"

section \<open>Sequences of create and update calls\<close>

text \<open>
  A call that throws leaves the storage as it was, so it is a step that changes nothing.
  \<^verbatim>\<open>createCourse\<close> pushes at the end and \<^verbatim>\<open>updateCourse\<close> writes in place, so a course
  keeps its position in the array for as long as only these two are called.
\<close>

datatype op = Create string string form_data | Update string string update_data

fun step :: "op \<Rightarrow> course list \<Rightarrow> course list" where
  "step (Create newId now data) stored = snd (createCourse newId now data stored)"
| "step (Update ident now data) stored = snd (updateCourse ident now data stored)"

text \<open>Every content of the storage, from the first to the last.\<close>

fun history :: "op list \<Rightarrow> course list \<Rightarrow> course list list" where
  "history [] stored = [stored]"
| "history (x # xs) stored = stored # history xs (step x stored)"

text \<open>The calls that ask for the status draft.\<close>

fun setsDraft :: "op \<Rightarrow> bool" where
  "setsDraft (Create newId now data) = False"
| "setsDraft (Update ident now data) = (upd_status data = Some Draft)"

section \<open>The list page (components/course/CourseListPage.tsx)\<close>

text \<open>
  \<^verbatim>\<open>FilterState\<close>. The two ranges are flattened: \<open>dateStart\<close> is
  \<^verbatim>\<open>dateRange.start\<close>, \<open>durationMin\<close> is \<^verbatim>\<open>durationRange.min\<close>, and so on; they hold
  the text of the input fields. \<open>fstatus\<close> is the field \<^verbatim>\<open>status\<close>, whose value
  \<^verbatim>\<open>'all'\<close> is \<open>AllStatuses\<close>. \<^verbatim>\<open>showAdvancedFilters\<close> only opens a panel and is left
  out.
\<close>

datatype status_filter = AllStatuses | OnlyStatus course_status
datatype sort_by = ByTitle | ByCreatedAt | ByDuration
datatype sort_order = Asc | Desc
datatype view_mode = Grid | ListView | Drag

record filter_state =
  fstatus :: status_filter
  search :: string
  sortBy :: sort_by
  sortOrder :: sort_order
  view :: view_mode
  dateStart :: string
  dateEnd :: string
  durationMin :: string
  durationMax :: string

text \<open>
  What the page takes from the JavaScript runtime and its locale:
  \<^verbatim>\<open>String.prototype.localeCompare\<close>, \<^verbatim>\<open>String.prototype.toLowerCase\<close>,
  \<^verbatim>\<open>new Date(s).getTime()\<close> in milliseconds (\<open>dateTime\<close>), and
  \<^verbatim>\<open>setHours(23, 59, 59, 999)\<close> on such an instant in the local time zone
  (\<open>endOfDay\<close>). Every date text is taken to be one that \<^verbatim>\<open>Date\<close> can read, as
  \<^verbatim>\<open>toISOString\<close> and the date inputs produce, so that an instant is an integer.
\<close>

record host =
  localeCompare :: "string \<Rightarrow> string \<Rightarrow> int"
  toLowerCase :: "string \<Rightarrow> string"
  dateTime :: "string \<Rightarrow> int"
  endOfDay :: "int \<Rightarrow> int"

text \<open>\<^verbatim>\<open>String.prototype.includes\<close>: the second string occurs in the first.\<close>

fun includes_str :: "string \<Rightarrow> string \<Rightarrow> bool" where
  "includes_str [] t = (t = [])"
| "includes_str (c # cs) t = (take (length t) (c # cs) = t \<or> includes_str cs t)"

text \<open>
  \<^verbatim>\<open>parseInt(s)\<close> with no radix: white space is skipped, a sign is read, a prefix
  \<^verbatim>\<open>0x\<close> or \<^verbatim>\<open>0X\<close> selects radix 16, and the longest run of digits of the radix is
  the value; with no digit at all the result is \<^verbatim>\<open>NaN\<close>, here \<open>None\<close>. (Only the
  white space of ASCII is modelled, and the value is exact, as it is in JavaScript below
  \<open>2 ^ 53\<close>.)
\<close>

definition isWhiteSpace :: "char \<Rightarrow> bool" where
  "isWhiteSpace c = (c \<in> set [CHR '' '', CHR 0x09, CHR 0x0A, CHR 0x0B, CHR 0x0C, CHR 0x0D])"

definition digitValue :: "char \<Rightarrow> nat option" where
  "digitValue c =
     (let n = (of_char c :: nat) in
      if 48 \<le> n \<and> n \<le> 57 then Some (n - 48)
      else if 97 \<le> n \<and> n \<le> 122 then Some (n - 87)
      else if 65 \<le> n \<and> n \<le> 90 then Some (n - 55)
      else None)"

fun radixDigits :: "nat \<Rightarrow> string \<Rightarrow> nat list" where
  "radixDigits R [] = []"
| "radixDigits R (c # cs) =
     (case digitValue c of
        None \<Rightarrow> []
      | Some d \<Rightarrow> if d < R then d # radixDigits R cs else [])"

definition parseInt :: "string \<Rightarrow> int option" where
  "parseInt str =
     (let s = dropWhile isWhiteSpace str;
          negative = (take 1 s = ''-'');
          s1 = (if take 1 s = ''-'' \<or> take 1 s = ''+'' then drop 1 s else s);
          hex = (take 2 s1 = ''0x'' \<or> take 2 s1 = ''0X'');
          R = (if hex then 16 else 10);
          Z = radixDigits R (if hex then drop 2 s1 else s1)
      in if Z = [] then None
         else (let mathInt = int (foldl (\<lambda>a d. a * R + d) 0 Z)
               in Some (if negative then - mathInt else mathInt)))"

text \<open>\<^verbatim>\<open>a >= b\<close> and \<^verbatim>\<open>a <= b\<close> where \<^verbatim>\<open>b\<close> may be \<^verbatim>\<open>NaN\<close>: every comparison
  with \<^verbatim>\<open>NaN\<close> is false.\<close>

fun geNum :: "int \<Rightarrow> int option \<Rightarrow> bool" where
  "geNum a None = False"
| "geNum a (Some b) = (a \<ge> b)"

fun leNum :: "int \<Rightarrow> int option \<Rightarrow> bool" where
  "leNum a None = False"
| "leNum a (Some b) = (a \<le> b)"

text \<open>The filters of the \<^verbatim>\<open>useMemo\<close> that computes \<^verbatim>\<open>filtered\<close>, in its order.\<close>

definition applyFilters :: "host \<Rightarrow> filter_state \<Rightarrow> course list \<Rightarrow> course list" where
  "applyFilters h filters courses =
     (let f1 = (case fstatus filters of
                  AllStatuses \<Rightarrow> courses
                | OnlyStatus s \<Rightarrow> filter (\<lambda>c. status c = s) courses);
          f2 = (if search filters \<noteq> []
                then filter (\<lambda>c. includes_str (toLowerCase h (title c))
                                           (toLowerCase h (search filters))) f1
                else f1);
          f3 = (if dateStart filters \<noteq> []
                then (let startDate = dateTime h (dateStart filters)
                      in filter (\<lambda>c. dateTime h (createdAt c) \<ge> startDate) f2)
                else f2);
          f4 = (if dateEnd filters \<noteq> []
                then (let endDate = endOfDay h (dateTime h (dateEnd filters))
                      in filter (\<lambda>c. dateTime h (createdAt c) \<le> endDate) f3)
                else f3);
          f5 = (if durationMin filters \<noteq> []
                then (let minDuration = parseInt (durationMin filters)
                      in filter (\<lambda>c. geNum (duration c) minDuration) f4)
                else f4)
      in if durationMax filters \<noteq> []
         then (let maxDuration = parseInt (durationMax filters)
               in filter (\<lambda>c. leNum (duration c) maxDuration) f5)
         else f5)"

text \<open>The comparator given to \<^verbatim>\<open>sort\<close>.\<close>

definition compareCourses :: "host \<Rightarrow> filter_state \<Rightarrow> course \<Rightarrow> course \<Rightarrow> int" where
  "compareCourses h filters a b =
     (let cmp = (case sortBy filters of
                   ByTitle \<Rightarrow> localeCompare h (title a) (title b)
                 | ByCreatedAt \<Rightarrow> dateTime h (createdAt a) - dateTime h (createdAt b)
                 | ByDuration \<Rightarrow> duration a - duration b)
      in if sortOrder filters = Asc then cmp else - cmp)"

text \<open>
  \<^verbatim>\<open>Array.prototype.sort\<close> is stable (ECMAScript 2019) and puts \<^verbatim>\<open>a\<close> before \<^verbatim>\<open>b\<close>
  when the comparator is negative. It is modelled as the insertion sort that moves an
  element to the right only past the elements it is strictly greater than.
\<close>

fun insertBy :: "('a \<Rightarrow> 'a \<Rightarrow> int) \<Rightarrow> 'a \<Rightarrow> 'a list \<Rightarrow> 'a list" where
  "insertBy cmp x [] = [x]"
| "insertBy cmp x (y # ys) =
     (if cmp x y \<le> 0 then x # y # ys else y # insertBy cmp x ys)"

definition sortJs :: "('a \<Rightarrow> 'a \<Rightarrow> int) \<Rightarrow> 'a list \<Rightarrow> 'a list" where
  "sortJs cmp xs = foldr (insertBy cmp) xs []"

definition filtered :: "host \<Rightarrow> filter_state \<Rightarrow> course list \<Rightarrow> course list" where
  "filtered h filters courses =
     (let result = applyFilters h filters courses
      in if view filters \<noteq> Drag then sortJs (compareCourses h filters) result
         else result)"

section \<open>Reordering (store/CourseContext.tsx, components/ui/DraggableCourseList.tsx)\<close>

text \<open>
  \<^verbatim>\<open>Array.prototype.splice\<close> clamps its start: a negative start counts from the end and
  stops at 0, a start beyond the length is the length.
\<close>

definition actualStart :: "int \<Rightarrow> nat \<Rightarrow> nat" where
  "actualStart start len =
     (if start < 0 then nat (max (int len + start) 0) else nat (min start (int len)))"

text \<open>\<^verbatim>\<open>xs.splice(start, 1)\<close>: the removed elements (at most one) and what is left.\<close>

definition spliceRemove :: "int \<Rightarrow> 'a list \<Rightarrow> 'a list \<times> 'a list" where
  "spliceRemove start xs =
     (let s = actualStart start (length xs)
      in (take 1 (drop s xs), take s xs @ drop (Suc s) xs))"

text \<open>\<^verbatim>\<open>xs.splice(start, 0, item)\<close>.\<close>

definition spliceInsert :: "int \<Rightarrow> 'a \<Rightarrow> 'a list \<Rightarrow> 'a list" where
  "spliceInsert start item xs =
     (let s = actualStart start (length xs) in take s xs @ item # drop s xs)"

text \<open>
  \<^verbatim>\<open>reorder\<close> of the context. An array element is \<open>Some c\<close>, or \<open>None\<close> for
  \<^verbatim>\<open>undefined\<close>, which is what \<^verbatim>\<open>const [removed] = ...\<close> binds when nothing was
  removed.
\<close>

definition reorder :: "int \<Rightarrow> int \<Rightarrow> 'a option list \<Rightarrow> 'a option list" where
  "reorder startIndex endIndex prevCourses =
     (let (removedItems, newCourses) = spliceRemove startIndex prevCourses;
          removed = (case removedItems of [] \<Rightarrow> None | r # _ \<Rightarrow> r)
      in spliceInsert endIndex removed newCourses)"

text \<open>
  \<^verbatim>\<open>handleDragEnd\<close> of the list that the page draws in drag view: its \<^verbatim>\<open>courses\<close> are
  the \<^verbatim>\<open>filtered\<close> of the page, its \<^verbatim>\<open>onReorder\<close> is the \<^verbatim>\<open>reorder\<close> of the context,
  which works on all the courses that the context holds. \<open>activeId\<close> is the dragged
  item, \<open>overId\<close> the item it is dropped on (\<open>None\<close> when there is none). The result
  is the array of the context afterwards.
\<close>

definition handleDragEnd ::
  "host \<Rightarrow> filter_state \<Rightarrow> string \<Rightarrow> string option \<Rightarrow> course list \<Rightarrow> course option list" where
  "handleDragEnd h filters activeId overId courses =
     (let shown = filtered h filters courses in
      if Some activeId \<noteq> overId
      then (let oldIndex = findIndex (\<lambda>c. id' c = activeId) shown;
                newIndex = findIndex (\<lambda>c. Some (id' c) = overId) shown
            in if oldIndex \<noteq> -1 \<and> newIndex \<noteq> -1
               then reorder oldIndex newIndex (map Some courses)
               else map Some courses)
      else map Some courses)"

section \<open>Example data\<close>

text \<open>The three courses of the tests of the list page.\<close>

definition course1 :: course where
  "course1 = \<lparr> id' = ''1'', title = ''React Fundamentals'',
                description = Some ''Learn the basics of React'', duration = 120,
                status = Draft, createdAt = ''2024-01-01T00:00:00Z'', publishedAt = None \<rparr>"

definition course2 :: course where
  "course2 = \<lparr> id' = ''2'', title = ''Advanced TypeScript'',
                description = Some ''Master TypeScript for better development'',
                duration = 180, status = Published, createdAt = ''2024-01-02T00:00:00Z'',
                publishedAt = Some ''2024-01-03T00:00:00Z'' \<rparr>"

definition course3 :: course where
  "course3 = \<lparr> id' = ''3'', title = ''Node.js Backend Development'',
                description = Some ''Build scalable backend applications'',
                duration = 240, status = Archived, createdAt = ''2024-01-04T00:00:00Z'',
                publishedAt = Some ''2024-01-05T00:00:00Z'' \<rparr>"

definition noUpdate :: update_data where
  "noUpdate = \<lparr> upd_title = None, upd_description = None, upd_duration = None,
                 upd_status = None \<rparr>"

text \<open>A second published course, and a second course of 120 minutes.\<close>

definition course4 :: course where
  "course4 = \<lparr> id' = ''4'', title = ''Testing React Apps'', description = None,
                duration = 120, status = Published, createdAt = ''2024-01-06T00:00:00Z'',
                publishedAt = Some ''2024-01-07T00:00:00Z'' \<rparr>"

text \<open>A course is created, published and archived.\<close>

definition exampleOps :: "op list" where
  "exampleOps =
     [Create ''1'' ''t0'' \<lparr> form_title = ''A'', form_description = None, form_duration = 60 \<rparr>,
      Update ''1'' ''t1'' (noUpdate \<lparr> upd_status := Some Published \<rparr>),
      Update ''1'' ''t2'' (noUpdate \<lparr> upd_status := Some Archived \<rparr>)]"

text \<open>The state of the filters when the page opens, in a given view.\<close>

definition initialFilters :: "view_mode \<Rightarrow> filter_state" where
  "initialFilters v = \<lparr> fstatus = AllStatuses, search = [], sortBy = ByCreatedAt,
                          sortOrder = Desc, view = v, dateStart = [], dateEnd = [],
                          durationMin = [], durationMax = [] \<rparr>"

text \<open>A runtime for the examples: strings compared by length, lower case as the
  identity, every date at instant 0.\<close>

definition exampleHost :: host where
  "exampleHost = \<lparr> localeCompare = (\<lambda>a b. int (length a) - int (length b)),
                     toLowerCase = (\<lambda>s. s), dateTime = (\<lambda>s. 0), endOfDay = (\<lambda>t. t) \<rparr>"

section \<open>Facts about \<open>findIndex\<close>\<close>

lemma findIndex_ge: "- 1 \<le> findIndex P xs"
  by (induction xs) (auto simp: Let_def)

lemma findIndex_none: "findIndex P xs = - 1 \<longleftrightarrow> (\<forall>x \<in> set xs. \<not> P x)"
proof (induction xs)
  case Nil
  show ?case by simp
next
  case (Cons x xs)
  have "- 1 \<le> findIndex P xs" by (rule findIndex_ge)
  with Cons show ?case by (auto simp: Let_def)
qed

lemma findIndex_found:
  "findIndex P xs \<noteq> - 1 \<Longrightarrow>
     0 \<le> findIndex P xs \<and> nat (findIndex P xs) < length xs \<and> P (xs ! nat (findIndex P xs))"
proof (induction xs)
  case Nil
  then show ?case by simp
next
  case (Cons x xs)
  show ?case
  proof (cases "P x")
    case True
    then show ?thesis by simp
  next
    case False
    with Cons.prems have ne: "findIndex P xs \<noteq> - 1"
      by (auto simp: Let_def split: if_splits)
    from Cons.IH [OF ne] have ih: "0 \<le> findIndex P xs"
      "nat (findIndex P xs) < length xs" "P (xs ! nat (findIndex P xs))"
      by simp_all
    have "nat (findIndex P xs + 1) = Suc (nat (findIndex P xs))"
      using ih(1) by simp
    with False ne ih show ?thesis by (simp add: Let_def)
  qed
qed

lemma findIndex_first:
  "findIndex P xs \<noteq> - 1 \<Longrightarrow> k < nat (findIndex P xs) \<Longrightarrow> \<not> P (xs ! k)"
proof (induction xs arbitrary: k)
  case Nil
  then show ?case by simp
next
  case (Cons x xs)
  show ?case
  proof (cases "P x")
    case True
    with Cons.prems show ?thesis by simp
  next
    case False
    with Cons.prems have ne: "findIndex P xs \<noteq> - 1"
      by (auto simp: Let_def split: if_splits)
    have ge: "0 \<le> findIndex P xs" using findIndex_found [OF ne] by simp
    have eq: "nat (findIndex P (x # xs)) = Suc (nat (findIndex P xs))"
      using False ne ge by (simp add: Let_def)
    show ?thesis
    proof (cases k)
      case 0
      with False show ?thesis by simp
    next
      case (Suc j)
      with Cons.prems(2) eq have "j < nat (findIndex P xs)" by simp
      from Cons.IH [OF ne this] Suc show ?thesis by simp
    qed
  qed
qed

section \<open>Facts about \<open>updateCourse\<close>\<close>

text \<open>What one course becomes in a call that reaches it.\<close>

lemma updateCourse_not_found:
  "findIndex (\<lambda>c. id' c = ident) stored = - 1 \<Longrightarrow>
     updateCourse ident now data stored = (Inl (ApiError 404 ''Course not found''), stored)"
  by (simp add: updateCourse_def)

lemma updateCourse_archived:
  "findIndex (\<lambda>c. id' c = ident) stored = int k \<Longrightarrow> status (stored ! k) = Archived \<Longrightarrow>
     updateCourse ident now data stored =
       (Inl (ApiError 403 ''Cannot edit archived course''), stored)"
  by (simp add: updateCourse_def)

lemma updateCourse_success:
  assumes "updateCourse ident now data stored = (Inr c', stored')"
  shows "\<exists>k. findIndex (\<lambda>c. id' c = ident) stored = int k \<and> k < length stored \<and>
             id' (stored ! k) = ident \<and> status (stored ! k) \<noteq> Archived \<and>
             stored' = stored[k := c'] \<and>
             c' = (if upd_status data = Some Published \<and> falsy (publishedAt (spread (stored ! k) data))
                   then (spread (stored ! k) data) \<lparr> publishedAt := Some now \<rparr>
                   else spread (stored ! k) data)"
proof -
  let ?i = "findIndex (\<lambda>c. id' c = ident) stored"
  from assms have ne: "?i \<noteq> - 1"
    by (auto simp: updateCourse_def)
  from findIndex_found [OF ne] have f: "0 \<le> ?i" "nat ?i < length stored"
    "id' (stored ! nat ?i) = ident" by simp_all
  from assms ne have na: "status (stored ! nat ?i) \<noteq> Archived"
    by (auto simp: updateCourse_def Let_def split: if_splits)
  from assms ne na have
    "stored' = stored[nat ?i := c']"
    "c' = (if upd_status data = Some Published \<and> falsy (publishedAt (spread (stored ! nat ?i) data))
           then (spread (stored ! nat ?i) data) \<lparr> publishedAt := Some now \<rparr>
           else spread (stored ! nat ?i) data)"
    by (auto simp: updateCourse_def Let_def split: if_splits)
  moreover have "?i = int (nat ?i)" using f(1) by simp
  ultimately show ?thesis using f na by blast
qed

lemma updateCourse_cases:
  "updateCourse ident now data stored = (r, stored') \<Longrightarrow>
     (\<exists>e. r = Inl e \<and> stored' = stored) \<or> (\<exists>c'. r = Inr c')"
  by (auto simp: updateCourse_def Let_def split: if_splits)

section \<open>Creation\<close>

text \<open>
  C9. \<^verbatim>\<open>createCourse\<close> throws exactly when the title is empty or the duration is at
  most 0; what it throws is the object with status 400, and the storage is as before.
  Otherwise it returns a course with status draft, the clock as \<^verbatim>\<open>createdAt\<close> and no
  \<^verbatim>\<open>publishedAt\<close>, and the storage is the old one with that course at the end.
\<close>

theorem createCourse_validates:
  "(isl (fst (createCourse newId now data stored)) \<longleftrightarrow>
      form_title data = [] \<or> form_duration data \<le> 0) \<and>
   (isl (fst (createCourse newId now data stored)) \<longrightarrow>
      createCourse newId now data stored = (Inl (ApiError 400 ''Invalid data''), stored)) \<and>
   (\<not> isl (fst (createCourse newId now data stored)) \<longrightarrow>
      (\<exists>c. createCourse newId now data stored = (Inr c, stored @ [c]) \<and>
           status c = Draft \<and> createdAt c = now \<and> publishedAt c = None \<and>
           id' c = newId \<and> title c = form_title data \<and>
           description c = form_description data \<and> duration c = form_duration data))"
  by (simp add: createCourse_def Let_def)

theorem createCourse_validates_witness:
  "\<not> isl (fst (createCourse ''k3x9'' ''2024-01-06T00:00:00.000Z''
       \<lparr> form_title = ''New Course'', form_description = Some ''Test'', form_duration = 60 \<rparr>
       [course1])) \<and>
   (\<exists>c. createCourse ''k3x9'' ''2024-01-06T00:00:00.000Z''
       \<lparr> form_title = ''New Course'', form_description = Some ''Test'', form_duration = 60 \<rparr>
       [course1] = (Inr c, [course1, c]) \<and> status c = Draft \<and> publishedAt c = None)"
  using createCourse_validates [of "''k3x9''" "''2024-01-06T00:00:00.000Z''"
    "\<lparr> form_title = ''New Course'', form_description = Some ''Test'', form_duration = 60 \<rparr>"
    "[course1]"]
  by (simp add: createCourse_def Let_def)

section \<open>The edit gate\<close>

text \<open>
  C1. In a storage whose identifiers are pairwise different, \<^verbatim>\<open>updateCourse\<close> called
  with the identifier of an archived course throws the object with status 403, whatever
  the data, and the storage is as before.
\<close>

theorem update_archived_forbidden:
  assumes "distinct (map id' stored)" and "c \<in> set stored" and "status c = Archived"
  shows "updateCourse (id' c) now data stored =
           (Inl (ApiError 403 ''Cannot edit archived course''), stored)"
proof -
  let ?i = "findIndex (\<lambda>x. id' x = id' c) stored"
  from assms(2) have ne: "?i \<noteq> - 1"
    by (auto simp: findIndex_none)
  from findIndex_found [OF ne] have f: "0 \<le> ?i" "nat ?i < length stored"
    "id' (stored ! nat ?i) = id' c" by simp_all
  have "inj_on id' (set stored)" using assms(1) by (simp add: distinct_map)
  moreover have "stored ! nat ?i \<in> set stored" using f(2) by simp
  ultimately have "stored ! nat ?i = c" using assms(2) f(3) by (auto dest: inj_onD)
  with assms(3) have "status (stored ! nat ?i) = Archived" by simp
  moreover have "?i = int (nat ?i)" using f(1) by simp
  ultimately show ?thesis by (rule updateCourse_archived [rotated])
qed

theorem update_archived_forbidden_witness:
  "distinct (map id' [course1, course2, course3]) \<and> course3 \<in> set [course1, course2, course3] \<and>
   status course3 = Archived \<and>
   updateCourse ''3'' ''2024-02-01T00:00:00.000Z'' (noUpdate \<lparr> upd_title := Some ''Renamed'' \<rparr>)
     [course1, course2, course3] =
     (Inl (ApiError 403 ''Cannot edit archived course''), [course1, course2, course3])"
proof -
  have d: "distinct (map id' [course1, course2, course3])"
    by (simp add: course1_def course2_def course3_def)
  have m: "course3 \<in> set [course1, course2, course3]" by simp
  have a: "status course3 = Archived" by (simp add: course3_def)
  have i: "id' course3 = ''3''" by (simp add: course3_def)
  from update_archived_forbidden [OF d m a] d m a i show ?thesis by simp
qed

section \<open>The frame of an update\<close>

lemma spread_frame: "id' (spread c data) = id' c \<and> createdAt (spread c data) = createdAt c \<and>
    publishedAt (spread c data) = publishedAt c"
  by (simp add: spread_def)

text \<open>
  C10. A call of \<^verbatim>\<open>updateCourse\<close> that returns keeps the length of the storage, the
  identifiers and the creation times in their order, and every element but one: the
  first with the given identifier, which becomes the returned course. In that course a
  field whose key is not in the data is as before, except \<^verbatim>\<open>publishedAt\<close>.
\<close>

theorem update_frame:
  assumes "updateCourse ident now data stored = (Inr c', stored')"
  shows "length stored' = length stored \<and>
         map id' stored' = map id' stored \<and>
         map createdAt stored' = map createdAt stored \<and>
         (\<forall>j < length stored. id' (stored ! j) \<noteq> ident \<longrightarrow> stored' ! j = stored ! j) \<and>
         (\<exists>k < length stored. id' (stored ! k) = ident \<and> stored' = stored[k := c'] \<and>
            (\<forall>j < k. id' (stored ! j) \<noteq> ident) \<and>
            id' c' = id' (stored ! k) \<and> createdAt c' = createdAt (stored ! k) \<and>
            (upd_title data = None \<longrightarrow> title c' = title (stored ! k)) \<and>
            (upd_description data = None \<longrightarrow> description c' = description (stored ! k)) \<and>
            (upd_duration data = None \<longrightarrow> duration c' = duration (stored ! k)) \<and>
            (upd_status data = None \<longrightarrow> status c' = status (stored ! k)))"
proof -
  from updateCourse_success [OF assms] obtain k where
    k: "findIndex (\<lambda>c. id' c = ident) stored = int k" "k < length stored"
       "id' (stored ! k) = ident" "stored' = stored[k := c']"
       "c' = (if upd_status data = Some Published \<and> falsy (publishedAt (spread (stored ! k) data))
              then (spread (stored ! k) data) \<lparr> publishedAt := Some now \<rparr>
              else spread (stored ! k) data)"
    by blast
  have idc: "id' c' = id' (stored ! k)" and crc: "createdAt c' = createdAt (stored ! k)"
    using k(5) by (simp_all add: spread_def)
  have first: "\<forall>j < k. id' (stored ! j) \<noteq> ident"
  proof (intro allI impI)
    fix j assume "j < k"
    moreover have "findIndex (\<lambda>c. id' c = ident) stored \<noteq> - 1" using k(1) by simp
    ultimately show "id' (stored ! j) \<noteq> ident"
      using findIndex_first [of "\<lambda>c. id' c = ident" stored j] k(1) by simp
  qed
  have len: "length stored' = length stored" using k(4) by simp
  have ids: "map id' stored' = map id' stored"
    using k(2,4) idc by (simp add: map_update list_update_same_conv)
  have crs: "map createdAt stored' = map createdAt stored"
    using k(2,4) crc by (simp add: map_update list_update_same_conv)
  have others: "\<forall>j < length stored. id' (stored ! j) \<noteq> ident \<longrightarrow> stored' ! j = stored ! j"
  proof (intro allI impI)
    fix j assume "j < length stored" and "id' (stored ! j) \<noteq> ident"
    with k(3) have "j \<noteq> k" by auto
    with k(4) show "stored' ! j = stored ! j" by simp
  qed
  have fields: "(upd_title data = None \<longrightarrow> title c' = title (stored ! k)) \<and>
            (upd_description data = None \<longrightarrow> description c' = description (stored ! k)) \<and>
            (upd_duration data = None \<longrightarrow> duration c' = duration (stored ! k)) \<and>
            (upd_status data = None \<longrightarrow> status c' = status (stored ! k))"
    using k(5) by (simp add: spread_def)
  have target: "\<exists>k < length stored. id' (stored ! k) = ident \<and> stored' = stored[k := c'] \<and>
            (\<forall>j < k. id' (stored ! j) \<noteq> ident) \<and>
            id' c' = id' (stored ! k) \<and> createdAt c' = createdAt (stored ! k) \<and>
            (upd_title data = None \<longrightarrow> title c' = title (stored ! k)) \<and>
            (upd_description data = None \<longrightarrow> description c' = description (stored ! k)) \<and>
            (upd_duration data = None \<longrightarrow> duration c' = duration (stored ! k)) \<and>
            (upd_status data = None \<longrightarrow> status c' = status (stored ! k))"
    using k(2,3,4) first idc crc fields by (intro exI [of _ k]) simp
  from len ids crs others target show ?thesis by (intro conjI)
qed

theorem update_frame_witness:
  "updateCourse ''2'' ''2024-02-01T00:00:00.000Z'' (noUpdate \<lparr> upd_title := Some ''Renamed'' \<rparr>)
     [course1, course2, course3] =
     (Inr (course2 \<lparr> title := ''Renamed'' \<rparr>), [course1, course2 \<lparr> title := ''Renamed'' \<rparr>, course3]) \<and>
   map id' [course1, course2 \<lparr> title := ''Renamed'' \<rparr>, course3] = map id' [course1, course2, course3]"
proof -
  have u: "updateCourse ''2'' ''2024-02-01T00:00:00.000Z'' (noUpdate \<lparr> upd_title := Some ''Renamed'' \<rparr>)
     [course1, course2, course3] =
     (Inr (course2 \<lparr> title := ''Renamed'' \<rparr>), [course1, course2 \<lparr> title := ''Renamed'' \<rparr>, course3])"
    by (simp add: updateCourse_def spread_def falsy_def noUpdate_def Let_def course1_def course2_def course3_def)
  from update_frame [OF u] u show ?thesis by simp
qed

section \<open>One step of a sequence\<close>

lemma updateCourse_snd:
  "snd (updateCourse ident now data stored) = stored \<or>
   (\<exists>k < length stored. status (stored ! k) \<noteq> Archived \<and>
      snd (updateCourse ident now data stored) = stored[k := updatedCourse now data (stored ! k)])"
proof (cases "updateCourse ident now data stored")
  case (Pair r stored')
  from updateCourse_cases [OF Pair] show ?thesis
  proof
    assume "\<exists>e. r = Inl e \<and> stored' = stored"
    with Pair show ?thesis by simp
  next
    assume "\<exists>c'. r = Inr c'"
    then obtain c' where "r = Inr c'" ..
    with Pair have "updateCourse ident now data stored = (Inr c', stored')" by simp
    from updateCourse_success [OF this] Pair show ?thesis
      by (auto simp: updatedCourse_def)
  qed
qed

lemma step_length: "length stored \<le> length (step x stored)"
proof (cases x)
  case (Create newId now data)
  then show ?thesis by (simp add: createCourse_def Let_def)
next
  case (Update ident now data)
  with updateCourse_snd [of ident now data stored] show ?thesis by auto
qed

lemma step_nth:
  assumes "k < length stored"
  shows "step x stored ! k = stored ! k \<or>
         (status (stored ! k) \<noteq> Archived \<and>
          (\<exists>now data. step x stored ! k = updatedCourse now data (stored ! k)))"
proof (cases x)
  case (Create newId now data)
  with assms show ?thesis by (simp add: createCourse_def Let_def nth_append)
next
  case (Update ident now data)
  from updateCourse_snd [of ident now data stored] show ?thesis
  proof
    assume "snd (updateCourse ident now data stored) = stored"
    with Update show ?thesis by simp
  next
    assume "\<exists>j < length stored. status (stored ! j) \<noteq> Archived \<and>
      snd (updateCourse ident now data stored) = stored[j := updatedCourse now data (stored ! j)]"
    then obtain j where j: "j < length stored" "status (stored ! j) \<noteq> Archived"
      "snd (updateCourse ident now data stored) = stored[j := updatedCourse now data (stored ! j)]"
      by blast
    show ?thesis
    proof (cases "j = k")
      case True
      with j Update show ?thesis by auto
    next
      case False
      with j Update show ?thesis by simp
    qed
  qed
qed

lemma step_new:
  assumes "length stored \<le> k" and "k < length (step x stored)"
  shows "status (step x stored ! k) = Draft \<and> publishedAt (step x stored ! k) = None"
proof (cases x)
  case (Create newId now data)
  with assms show ?thesis
    by (auto simp: createCourse_def Let_def nth_append split: if_splits)
next
  case (Update ident now data)
  with updateCourse_snd [of ident now data stored] assms show ?thesis by auto
qed

lemma updatedCourse_keeps_set:
  "\<not> falsy (publishedAt c) \<Longrightarrow> publishedAt (updatedCourse now data c) = publishedAt c"
  by (simp add: updatedCourse_def spread_def)

lemma updatedCourse_present:
  "publishedAt c \<noteq> None \<Longrightarrow> publishedAt (updatedCourse now data c) \<noteq> None"
  by (simp add: updatedCourse_def spread_def)

lemma updatedCourse_stamp_published:
  "publishedAt c = None \<Longrightarrow> publishedAt (updatedCourse now data c) \<noteq> None \<Longrightarrow>
     status (updatedCourse now data c) = Published"
  by (auto simp: updatedCourse_def spread_def split: if_splits)

lemma updatedCourse_published_present:
  "status c = Published \<longrightarrow> publishedAt c \<noteq> None \<Longrightarrow>
     status (updatedCourse now data c) = Published \<longrightarrow> publishedAt (updatedCourse now data c) \<noteq> None"
  by (auto simp: updatedCourse_def spread_def falsy_def split: if_splits option.splits)

section \<open>Histories\<close>

lemma history_first: "stored \<in> set (history ops stored)"
  by (cases ops) simp_all

lemma history_last_Cons: "last (history (x # xs) stored) = last (history xs (step x stored))"
  by (cases xs) simp_all

text \<open>A published course has its \<^verbatim>\<open>publishedAt\<close>: every step keeps that.\<close>

lemma step_published_present:
  assumes inv: "\<forall>k < length stored. status (stored ! k) = Published \<longrightarrow> publishedAt (stored ! k) \<noteq> None"
  shows "\<forall>k < length (step x stored).
           status (step x stored ! k) = Published \<longrightarrow> publishedAt (step x stored ! k) \<noteq> None"
proof (intro allI impI)
  fix k
  assume k: "k < length (step x stored)" and p: "status (step x stored ! k) = Published"
  show "publishedAt (step x stored ! k) \<noteq> None"
  proof (cases "k < length stored")
    case True
    with inv have i: "status (stored ! k) = Published \<longrightarrow> publishedAt (stored ! k) \<noteq> None"
      by simp
    from step_nth [OF True, of x] show ?thesis
    proof
      assume "step x stored ! k = stored ! k"
      with i p show ?thesis by simp
    next
      assume "status (stored ! k) \<noteq> Archived \<and>
        (\<exists>now data. step x stored ! k = updatedCourse now data (stored ! k))"
      then obtain now data where "step x stored ! k = updatedCourse now data (stored ! k)"
        by blast
      with updatedCourse_published_present [OF i, of now data] p show ?thesis by simp
    qed
  next
    case False
    with step_new [of stored k x] k p show ?thesis by simp
  qed
qed

lemma step_present:
  assumes "k < length stored" and "publishedAt (stored ! k) \<noteq> None"
  shows "publishedAt (step x stored ! k) \<noteq> None"
  using step_nth [OF assms(1), of x] assms(2) updatedCourse_present by auto

lemma step_stamp_published:
  assumes "k < length stored" and "publishedAt (stored ! k) = None"
    and "publishedAt (step x stored ! k) \<noteq> None"
  shows "status (step x stored ! k) = Published"
  using step_nth [OF assms(1), of x] assms(2,3) updatedCourse_stamp_published by auto

lemma step_keeps_set:
  assumes "k < length stored" and "\<not> falsy (publishedAt (stored ! k))"
  shows "publishedAt (step x stored ! k) = publishedAt (stored ! k)"
  using step_nth [OF assms(1), of x] assms(2) updatedCourse_keeps_set by auto

lemma step_archived:
  assumes "k < length stored" and "status (stored ! k) = Archived"
  shows "step x stored ! k = stored ! k"
  using step_nth [OF assms(1), of x] assms(2) by auto

lemma history_keeps_set:
  "k < length stored \<Longrightarrow> \<not> falsy (publishedAt (stored ! k)) \<Longrightarrow>
     \<forall>s \<in> set (history ops stored). k < length s \<and> publishedAt (s ! k) = publishedAt (stored ! k)"
proof (induction ops arbitrary: stored)
  case Nil
  then show ?case by simp
next
  case (Cons x xs)
  have l: "k < length (step x stored)"
    using Cons.prems(1) step_length [of stored x] by simp
  have e: "publishedAt (step x stored ! k) = publishedAt (stored ! k)"
    using Cons.prems by (rule step_keeps_set)
  with Cons.prems(2) have "\<not> falsy (publishedAt (step x stored ! k))" by simp
  from Cons.IH [OF l this] e Cons.prems(1) show ?case by simp
qed

lemma history_archived:
  "k < length stored \<Longrightarrow> status (stored ! k) = Archived \<Longrightarrow>
     \<forall>s \<in> set (history ops stored). k < length s \<and> s ! k = stored ! k"
proof (induction ops arbitrary: stored)
  case Nil
  then show ?case by simp
next
  case (Cons x xs)
  have l: "k < length (step x stored)"
    using Cons.prems(1) step_length [of stored x] by simp
  have e: "step x stored ! k = stored ! k"
    using Cons.prems by (rule step_archived)
  with Cons.prems(2) have "status (step x stored ! k) = Archived" by simp
  from Cons.IH [OF l this] e Cons.prems(1) show ?case by simp
qed

lemma history_ever_published:
  assumes "\<forall>j < length stored. status (stored ! j) = Published \<longrightarrow> publishedAt (stored ! j) \<noteq> None"
    and "k < length (last (history ops stored))"
  shows "publishedAt (last (history ops stored) ! k) \<noteq> None \<longleftrightarrow>
           (k < length stored \<and> publishedAt (stored ! k) \<noteq> None) \<or>
           (\<exists>s \<in> set (history ops stored). k < length s \<and> status (s ! k) = Published)"
  using assms
proof (induction ops arbitrary: stored)
  case Nil
  then show ?case by auto
next
  case (Cons x xs)
  let ?s = "step x stored"
  have inv: "\<forall>j < length ?s. status (?s ! j) = Published \<longrightarrow> publishedAt (?s ! j) \<noteq> None"
    using Cons.prems(1) by (rule step_published_present)
  have k: "k < length (last (history xs ?s))"
    using Cons.prems(2) by (simp only: history_last_Cons)
  have ih: "publishedAt (last (history xs ?s) ! k) \<noteq> None \<longleftrightarrow>
           (k < length ?s \<and> publishedAt (?s ! k) \<noteq> None) \<or>
           (\<exists>s \<in> set (history xs ?s). k < length s \<and> status (s ! k) = Published)"
    using Cons.IH [OF inv k] .
  have first: "?s \<in> set (history xs ?s)" by (rule history_first)
  have a: "k < length ?s \<and> publishedAt (?s ! k) \<noteq> None \<Longrightarrow>
        (k < length stored \<and> publishedAt (stored ! k) \<noteq> None) \<or>
        (\<exists>s \<in> set (history xs ?s). k < length s \<and> status (s ! k) = Published)"
  proof -
    assume h: "k < length ?s \<and> publishedAt (?s ! k) \<noteq> None"
    show ?thesis
    proof (cases "k < length stored")
      case True
      show ?thesis
      proof (cases "publishedAt (stored ! k) = None")
        case True
        with \<open>k < length stored\<close> h have "status (?s ! k) = Published"
          by (auto intro: step_stamp_published)
        with h first show ?thesis by blast
      next
        case False
        with \<open>k < length stored\<close> show ?thesis by simp
      qed
    next
      case False
      with step_new [of stored k x] h show ?thesis by simp
    qed
  qed
  have b: "k < length stored \<and> publishedAt (stored ! k) \<noteq> None \<Longrightarrow>
        k < length ?s \<and> publishedAt (?s ! k) \<noteq> None"
    using step_length [of stored x] step_present [of k stored x] by auto
  have c: "k < length stored \<and> status (stored ! k) = Published \<Longrightarrow>
        k < length stored \<and> publishedAt (stored ! k) \<noteq> None"
    using Cons.prems(1) by simp
  have "publishedAt (last (history (x # xs) stored) ! k) \<noteq> None \<longleftrightarrow>
          publishedAt (last (history xs ?s) ! k) \<noteq> None"
    by (simp only: history_last_Cons)
  also have "\<dots> \<longleftrightarrow> (k < length stored \<and> publishedAt (stored ! k) \<noteq> None) \<or>
           (k < length stored \<and> status (stored ! k) = Published) \<or>
           (\<exists>s \<in> set (history xs ?s). k < length s \<and> status (s ! k) = Published)"
    unfolding ih using a b c by blast
  also have "\<dots> \<longleftrightarrow> (k < length stored \<and> publishedAt (stored ! k) \<noteq> None) \<or>
           (\<exists>s \<in> set (history (x # xs) stored). k < length s \<and> status (s ! k) = Published)"
    by auto
  finally show ?case .
qed

section \<open>The publication stamp\<close>

text \<open>
  C2. (1) A call of \<^verbatim>\<open>updateCourse\<close> that returns, whose data set the status to
  published and whose course has no \<^verbatim>\<open>publishedAt\<close> yet, returns the course with the
  clock as \<^verbatim>\<open>publishedAt\<close>. (2) Once a course has a \<^verbatim>\<open>publishedAt\<close>, it holds the same
  value after every sequence of create and update calls. (3) After any sequence of
  calls on the empty storage, a course has a \<^verbatim>\<open>publishedAt\<close> if and only if its status
  was published at some moment of the sequence.
\<close>

theorem publishedAt_set_once:
  "(updateCourse ident now data stored = (Inr c', stored') \<and>
      findIndex (\<lambda>c. id' c = ident) stored = int k \<and>
      upd_status data = Some Published \<and> falsy (publishedAt (stored ! k)) \<longrightarrow>
        status c' = Published \<and> publishedAt c' = Some now \<and> stored' ! k = c') \<and>
   (j < length before \<and> \<not> falsy (publishedAt (before ! j)) \<longrightarrow>
      (\<forall>s \<in> set (history ops before). j < length s \<and> publishedAt (s ! j) = publishedAt (before ! j))) \<and>
   (i < length (last (history calls [])) \<longrightarrow>
      (publishedAt (last (history calls []) ! i) \<noteq> None \<longleftrightarrow>
         (\<exists>s \<in> set (history calls []). i < length s \<and> status (s ! i) = Published)))"
proof (intro conjI impI)
  assume h: "updateCourse ident now data stored = (Inr c', stored') \<and>
      findIndex (\<lambda>c. id' c = ident) stored = int k \<and>
      upd_status data = Some Published \<and> falsy (publishedAt (stored ! k))"
  from updateCourse_success [of ident now data stored c' stored'] h
  obtain m where m: "findIndex (\<lambda>c. id' c = ident) stored = int m" "m < length stored"
    "stored' = stored[m := c']"
    "c' = (if upd_status data = Some Published \<and> falsy (publishedAt (spread (stored ! m) data))
           then (spread (stored ! m) data) \<lparr> publishedAt := Some now \<rparr>
           else spread (stored ! m) data)"
    by blast
  from m(1) h have "m = k" by simp
  with m h show "status c' = Published" "publishedAt c' = Some now" "stored' ! k = c'"
    by (simp_all add: spread_def)
next
  assume "j < length before \<and> \<not> falsy (publishedAt (before ! j))"
  then show "\<forall>s \<in> set (history ops before). j < length s \<and> publishedAt (s ! j) = publishedAt (before ! j)"
    using history_keeps_set by blast
next
  assume "i < length (last (history calls []))"
  with history_ever_published [of "[]" i calls]
  show "publishedAt (last (history calls []) ! i) \<noteq> None \<longleftrightarrow>
         (\<exists>s \<in> set (history calls []). i < length s \<and> status (s ! i) = Published)"
    by simp
qed

lemma exampleOps_history:
  "history exampleOps [] =
     [[],
      [\<lparr> id' = ''1'', title = ''A'', description = None, duration = 60, status = Draft,
         createdAt = ''t0'', publishedAt = None \<rparr>],
      [\<lparr> id' = ''1'', title = ''A'', description = None, duration = 60, status = Published,
         createdAt = ''t0'', publishedAt = Some ''t1'' \<rparr>],
      [\<lparr> id' = ''1'', title = ''A'', description = None, duration = 60, status = Archived,
         createdAt = ''t0'', publishedAt = Some ''t1'' \<rparr>]]"
  by (simp add: exampleOps_def createCourse_def updateCourse_def spread_def falsy_def
      noUpdate_def Let_def)

lemma publish_course1:
  "updateCourse ''1'' ''t1'' (noUpdate \<lparr> upd_status := Some Published \<rparr>) [course1, course2] =
     (Inr (course1 \<lparr> status := Published, publishedAt := Some ''t1'' \<rparr>),
      [course1 \<lparr> status := Published, publishedAt := Some ''t1'' \<rparr>, course2])"
  by (simp add: updateCourse_def spread_def falsy_def noUpdate_def Let_def course1_def course2_def)

theorem publishedAt_set_once_witness:
  "publishedAt (course1 \<lparr> status := Published, publishedAt := Some ''t1'' \<rparr>) = Some ''t1'' \<and>
   list_all (\<lambda>s. 1 < length s \<and> publishedAt (s ! 1) = Some ''2024-01-03T00:00:00Z'')
     (history exampleOps [course1, course2]) \<and>
   publishedAt (last (history exampleOps []) ! 0) \<noteq> None \<and>
   (\<exists>s \<in> set (history exampleOps []). 0 < length s \<and> status (s ! 0) = Published)"
proof -
  have f: "findIndex (\<lambda>c. id' c = ''1'') [course1, course2] = int 0"
    by (simp add: course1_def)
  have u: "upd_status (noUpdate \<lparr> upd_status := Some Published \<rparr>) = Some Published" by simp
  have n: "falsy (publishedAt ([course1, course2] ! 0))"
    by (simp add: falsy_def course1_def)
  have b: "1 < length [course1, course2] \<and> \<not> falsy (publishedAt ([course1, course2] ! 1))"
    by (simp add: falsy_def course2_def)
  have p: "publishedAt ([course1, course2] ! 1) = Some ''2024-01-03T00:00:00Z''"
    by (simp add: course2_def)
  have l: "0 < length (last (history exampleOps []))"
    by (simp add: exampleOps_history)
  have q: "publishedAt (last (history exampleOps []) ! 0) \<noteq> None"
    by (simp add: exampleOps_history)
  from publishedAt_set_once [of "''1''" "''t1''" "noUpdate \<lparr> upd_status := Some Published \<rparr>"
      "[course1, course2]" "course1 \<lparr> status := Published, publishedAt := Some ''t1'' \<rparr>"
      "[course1 \<lparr> status := Published, publishedAt := Some ''t1'' \<rparr>, course2]" 0
      1 "[course1, course2]" exampleOps 0 exampleOps]
    publish_course1 f u n b p l q
  show ?thesis by (simp add: list_all_iff)
qed

section \<open>Status transitions\<close>

text \<open>
  C3, as the claim states it, fails: \<^verbatim>\<open>updateCourse\<close> does not look at the transition.
  Called with the status draft on the published course of the tests, it returns, and the
  course is a draft again.
\<close>

theorem published_returns_to_draft:
  "status course2 = Published \<and>
   updateCourse ''2'' ''2024-02-01T00:00:00.000Z'' (noUpdate \<lparr> upd_status := Some Draft \<rparr>)
     [course1, course2, course3] =
     (Inr (course2 \<lparr> status := Draft \<rparr>), [course1, course2 \<lparr> status := Draft \<rparr>, course3])"
  by (simp add: updateCourse_def spread_def falsy_def noUpdate_def Let_def
      course1_def course2_def course3_def)

lemma step_not_draft:
  assumes "\<not> setsDraft x" and "k < length stored" and "status (stored ! k) \<noteq> Draft"
  shows "status (step x stored ! k) \<noteq> Draft"
proof (cases x)
  case (Create newId now data)
  with assms(2,3) show ?thesis by (simp add: createCourse_def Let_def nth_append)
next
  case (Update ident now data)
  with assms(1) have nd: "upd_status data \<noteq> Some Draft" by simp
  from updateCourse_snd [of ident now data stored] show ?thesis
  proof
    assume "snd (updateCourse ident now data stored) = stored"
    with Update assms(3) show ?thesis by simp
  next
    assume "\<exists>j < length stored. status (stored ! j) \<noteq> Archived \<and>
      snd (updateCourse ident now data stored) = stored[j := updatedCourse now data (stored ! j)]"
    then obtain j where j: "j < length stored"
      "snd (updateCourse ident now data stored) = stored[j := updatedCourse now data (stored ! j)]"
      by blast
    have u: "status (updatedCourse now data (stored ! k)) \<noteq> Draft"
      using nd assms(3) by (auto simp: updatedCourse_def spread_def split: option.splits)
    show ?thesis
    proof (cases "j = k")
      case True
      with j Update u show ?thesis by simp
    next
      case False
      with j Update assms(3) show ?thesis by simp
    qed
  qed
qed

lemma history_not_draft:
  "k < length stored \<Longrightarrow> status (stored ! k) \<noteq> Draft \<Longrightarrow> \<forall>x \<in> set ops. \<not> setsDraft x \<Longrightarrow>
     \<forall>s \<in> set (history ops stored). k < length s \<and> status (s ! k) \<noteq> Draft"
proof (induction ops arbitrary: stored)
  case Nil
  then show ?case by simp
next
  case (Cons x xs)
  have l: "k < length (step x stored)"
    using Cons.prems(1) step_length [of stored x] by simp
  have nd: "\<not> setsDraft x" and rest: "\<forall>y \<in> set xs. \<not> setsDraft y"
    using Cons.prems(3) by simp_all
  have "status (step x stored ! k) \<noteq> Draft"
    using nd Cons.prems(1,2) by (rule step_not_draft)
  from Cons.IH [OF l this rest] Cons.prems(1,2) show ?case by simp
qed

text \<open>
  C3, amended. Archived is terminal: an archived course is the same record after every
  sequence of create and update calls. \<^verbatim>\<open>updateCourse\<close> does not check the transition
  otherwise: a call on a published course that returns gives a draft exactly when its
  data set the status to draft. So in a sequence of calls none of which sets the status
  to draft, a course that is not a draft never becomes one.
\<close>

theorem archived_is_terminal:
  "(k < length stored \<and> status (stored ! k) = Archived \<longrightarrow>
      (\<forall>s \<in> set (history ops stored). k < length s \<and> s ! k = stored ! k)) \<and>
   (updateCourse ident now data before = (Inr c', after) \<and>
      findIndex (\<lambda>c. id' c = ident) before = int j \<and> status (before ! j) = Published \<longrightarrow>
        (status c' = Draft \<longleftrightarrow> upd_status data = Some Draft)) \<and>
   (i < length stored \<and> status (stored ! i) \<noteq> Draft \<and> (\<forall>x \<in> set ops. \<not> setsDraft x) \<longrightarrow>
      (\<forall>s \<in> set (history ops stored). i < length s \<and> status (s ! i) \<noteq> Draft))"
proof (intro conjI impI)
  assume "k < length stored \<and> status (stored ! k) = Archived"
  then show "\<forall>s \<in> set (history ops stored). k < length s \<and> s ! k = stored ! k"
    using history_archived by blast
next
  assume h: "updateCourse ident now data before = (Inr c', after) \<and>
      findIndex (\<lambda>c. id' c = ident) before = int j \<and> status (before ! j) = Published"
  from updateCourse_success [of ident now data before c' after] h
  obtain m where m: "findIndex (\<lambda>c. id' c = ident) before = int m"
    "c' = (if upd_status data = Some Published \<and> falsy (publishedAt (spread (before ! m) data))
           then (spread (before ! m) data) \<lparr> publishedAt := Some now \<rparr>
           else spread (before ! m) data)"
    by blast
  from m(1) h have "m = j" by simp
  with m(2) h show "status c' = Draft \<longleftrightarrow> upd_status data = Some Draft"
    by (auto simp: spread_def split: option.splits)
next
  assume "i < length stored \<and> status (stored ! i) \<noteq> Draft \<and> (\<forall>x \<in> set ops. \<not> setsDraft x)"
  then show "\<forall>s \<in> set (history ops stored). i < length s \<and> status (s ! i) \<noteq> Draft"
    using history_not_draft [of i stored ops] by blast
qed

theorem archived_is_terminal_witness:
  "list_all (\<lambda>s. 2 < length s \<and> s ! 2 = course3) (history exampleOps [course1, course2, course3]) \<and>
   status (course2 \<lparr> title := ''Renamed'' \<rparr>) \<noteq> Draft \<and>
   list_all (\<lambda>s. 1 < length s \<and> status (s ! 1) \<noteq> Draft)
     (history exampleOps [course1, course2, course3])"
proof -
  have a: "2 < length [course1, course2, course3] \<and> status ([course1, course2, course3] ! 2) = Archived"
    by (simp add: course3_def)
  have u: "updateCourse ''2'' ''t'' (noUpdate \<lparr> upd_title := Some ''Renamed'' \<rparr>)
     [course1, course2, course3] =
     (Inr (course2 \<lparr> title := ''Renamed'' \<rparr>), [course1, course2 \<lparr> title := ''Renamed'' \<rparr>, course3])"
    by code_simp
  have f: "findIndex (\<lambda>c. id' c = ''2'') [course1, course2, course3] = int 1"
    by (simp add: course1_def course2_def)
  have p: "status ([course1, course2, course3] ! 1) = Published"
    by (simp add: course2_def)
  have d: "upd_status (noUpdate \<lparr> upd_title := Some ''Renamed'' \<rparr>) \<noteq> Some Draft"
    by (simp add: noUpdate_def)
  have n: "1 < length [course1, course2, course3] \<and> status ([course1, course2, course3] ! 1) \<noteq> Draft"
    by (simp add: course2_def)
  have e: "\<forall>x \<in> set exampleOps. \<not> setsDraft x"
    by (simp add: exampleOps_def noUpdate_def)
  from archived_is_terminal [of 2 "[course1, course2, course3]" exampleOps "''2''" "''t''"
      "noUpdate \<lparr> upd_title := Some ''Renamed'' \<rparr>" "[course1, course2, course3]"
      "course2 \<lparr> title := ''Renamed'' \<rparr>" "[course1, course2 \<lparr> title := ''Renamed'' \<rparr>, course3]" 1 1]
    a u f p d n e
  show ?thesis by (simp add: list_all_iff)
qed

section \<open>Validation of the fields\<close>

text \<open>
  C4. \<^verbatim>\<open>createCourse\<close> refuses an empty title and a duration of 0;
  \<^verbatim>\<open>updateCourse\<close> has no such check: on the draft course of the tests it returns and
  stores the empty title, and likewise the duration 0.
\<close>

theorem update_stores_invalid_fields:
  "fst (createCourse ''9'' ''t'' \<lparr> form_title = [], form_description = None, form_duration = 60 \<rparr>
          [course1]) = Inl (ApiError 400 ''Invalid data'') \<and>
   updateCourse ''1'' ''t'' (noUpdate \<lparr> upd_title := Some [] \<rparr>) [course1] =
     (Inr (course1 \<lparr> title := [] \<rparr>), [course1 \<lparr> title := [] \<rparr>]) \<and>
   fst (createCourse ''9'' ''t'' \<lparr> form_title = ''A'', form_description = None, form_duration = 0 \<rparr>
          [course1]) = Inl (ApiError 400 ''Invalid data'') \<and>
   updateCourse ''1'' ''t'' (noUpdate \<lparr> upd_duration := Some 0 \<rparr>) [course1] =
     (Inr (course1 \<lparr> duration := 0 \<rparr>), [course1 \<lparr> duration := 0 \<rparr>])"
  by (simp add: createCourse_def updateCourse_def spread_def falsy_def noUpdate_def Let_def
      course1_def)

section \<open>Sorting\<close>

lemma mset_insertBy: "mset (insertBy cmp x ys) = add_mset x (mset ys)"
  by (induction ys) simp_all

lemma mset_sortJs: "mset (sortJs cmp xs) = mset xs"
  by (induction xs) (simp_all add: sortJs_def mset_insertBy)

lemma set_sortJs: "set (sortJs cmp xs) = set xs"
proof -
  have "set_mset (mset (sortJs cmp xs)) = set_mset (mset xs)"
    by (simp only: mset_sortJs)
  then show ?thesis by simp
qed

lemma filter_insertBy_out: "\<not> P x \<Longrightarrow> filter P (insertBy cmp x ys) = filter P ys"
  by (induction ys) simp_all

lemma filter_insertBy_in:
  "P x \<Longrightarrow> \<forall>y \<in> set ys. P y \<longrightarrow> cmp x y \<le> 0 \<Longrightarrow>
     filter P (insertBy cmp x ys) = x # filter P ys"
  by (induction ys) auto

lemma filter_sortJs:
  assumes "\<forall>x y. P x \<and> P y \<longrightarrow> cmp x y \<le> 0"
  shows "filter P (sortJs cmp xs) = filter P xs"
proof (induction xs)
  case Nil
  show ?case by (simp add: sortJs_def)
next
  case (Cons x xs)
  have s: "sortJs cmp (x # xs) = insertBy cmp x (sortJs cmp xs)"
    by (simp add: sortJs_def)
  show ?case
  proof (cases "P x")
    case True
    with assms have "\<forall>y \<in> set (sortJs cmp xs). P y \<longrightarrow> cmp x y \<le> 0" by blast
    with True Cons.IH show ?thesis
      by (simp add: s filter_insertBy_in)
  next
    case False
    with Cons.IH show ?thesis
      by (simp add: s filter_insertBy_out)
  qed
qed

lemma compareCourses_ties:
  assumes "sortBy filters = ByTitle \<longrightarrow>
      (\<forall>a b c. localeCompare h a b = 0 \<and> localeCompare h a c = 0 \<longrightarrow> localeCompare h b c = 0)"
    and "compareCourses h filters k x = 0" and "compareCourses h filters k y = 0"
  shows "compareCourses h filters x y = 0"
proof (cases "sortBy filters")
  case ByTitle
  with assms(1) have e: "\<And>a b c. localeCompare h a b = 0 \<Longrightarrow> localeCompare h a c = 0 \<Longrightarrow>
      localeCompare h b c = 0" by blast
  from ByTitle assms(2,3) have "localeCompare h (title k) (title x) = 0"
    "localeCompare h (title k) (title y) = 0"
    by (simp_all add: compareCourses_def Let_def split: if_splits)
  then have "localeCompare h (title x) (title y) = 0" by (rule e)
  with ByTitle show ?thesis by (simp add: compareCourses_def Let_def)
next
  case ByCreatedAt
  with assms(2,3) show ?thesis by (simp add: compareCourses_def Let_def split: if_splits)
next
  case ByDuration
  with assms(2,3) show ?thesis by (simp add: compareCourses_def Let_def split: if_splits)
qed

text \<open>
  C7. Outside drag view the page sorts what the filters leave. For any course \<open>k\<close>, the
  courses whose sort key equals that of \<open>k\<close> (the comparator gives 0) come out of the
  sort in the order in which they went in; the sort order, ascending or descending, is
  any. For the sort by title, \<^verbatim>\<open>localeCompare\<close> is taken to have consistent ties: two
  strings equal to a third are equal.
\<close>

theorem sort_is_stable:
  assumes "view filters \<noteq> Drag"
    and "sortBy filters = ByTitle \<longrightarrow>
      (\<forall>a b c. localeCompare h a b = 0 \<and> localeCompare h a c = 0 \<longrightarrow> localeCompare h b c = 0)"
  shows "filter (\<lambda>c. compareCourses h filters k c = 0) (filtered h filters courses) =
         filter (\<lambda>c. compareCourses h filters k c = 0) (applyFilters h filters courses)"
proof -
  have "\<forall>x y. compareCourses h filters k x = 0 \<and> compareCourses h filters k y = 0 \<longrightarrow>
      compareCourses h filters x y \<le> 0"
  proof (intro allI impI)
    fix x y
    assume "compareCourses h filters k x = 0 \<and> compareCourses h filters k y = 0"
    then have "compareCourses h filters x y = 0"
      using compareCourses_ties [OF assms(2), of k x y] by simp
    then show "compareCourses h filters x y \<le> 0" by simp
  qed
  then have "filter (\<lambda>c. compareCourses h filters k c = 0)
        (sortJs (compareCourses h filters) (applyFilters h filters courses)) =
      filter (\<lambda>c. compareCourses h filters k c = 0) (applyFilters h filters courses)"
    by (rule filter_sortJs)
  with assms(1) show ?thesis by (simp add: filtered_def)
qed

lemma exampleHost_ties:
  "\<forall>a b c. localeCompare exampleHost a b = 0 \<and> localeCompare exampleHost a c = 0 \<longrightarrow>
     localeCompare exampleHost b c = 0"
  by (simp add: exampleHost_def)

lemma sorted_by_title_desc:
  "filtered exampleHost ((initialFilters Grid) \<lparr> sortBy := ByTitle \<rparr>)
     [course1, course2, course3, course4] = [course3, course2, course1, course4]"
  by code_simp

theorem sort_is_stable_witness:
  "view ((initialFilters Grid) \<lparr> sortBy := ByTitle \<rparr>) \<noteq> Drag \<and>
   sortOrder ((initialFilters Grid) \<lparr> sortBy := ByTitle \<rparr>) = Desc \<and>
   filter (\<lambda>c. compareCourses exampleHost ((initialFilters Grid) \<lparr> sortBy := ByTitle \<rparr>) course1 c = 0)
     (filtered exampleHost ((initialFilters Grid) \<lparr> sortBy := ByTitle \<rparr>)
        [course1, course2, course3, course4]) = [course1, course4]"
proof -
  have v: "view ((initialFilters Grid) \<lparr> sortBy := ByTitle \<rparr>) \<noteq> Drag"
    by (simp add: initialFilters_def)
  have d: "sortOrder ((initialFilters Grid) \<lparr> sortBy := ByTitle \<rparr>) = Desc"
    by (simp add: initialFilters_def)
  have t: "sortBy ((initialFilters Grid) \<lparr> sortBy := ByTitle \<rparr>) = ByTitle \<longrightarrow>
      (\<forall>a b c. localeCompare exampleHost a b = 0 \<and> localeCompare exampleHost a c = 0 \<longrightarrow>
         localeCompare exampleHost b c = 0)"
    using exampleHost_ties by (intro impI)
  have e: "filter (\<lambda>c. compareCourses exampleHost ((initialFilters Grid) \<lparr> sortBy := ByTitle \<rparr>) course1 c = 0)
     (applyFilters exampleHost ((initialFilters Grid) \<lparr> sortBy := ByTitle \<rparr>)
        [course1, course2, course3, course4]) = [course1, course4]"
    by code_simp
  have "filter (\<lambda>c. compareCourses exampleHost ((initialFilters Grid) \<lparr> sortBy := ByTitle \<rparr>) course1 c = 0)
     (filtered exampleHost ((initialFilters Grid) \<lparr> sortBy := ByTitle \<rparr>)
        [course1, course2, course3, course4]) = [course1, course4]"
    using sort_is_stable [OF v t, of course1 "[course1, course2, course3, course4]"] e
    by (simp only:)
  with v d show ?thesis by (intro conjI)
qed

section \<open>A duration bound that is not a number\<close>

text \<open>
  C5, as the claim states it, fails. \<^verbatim>\<open>parseInt\<close> of \<^verbatim>\<open>"abc"\<close> is \<^verbatim>\<open>NaN\<close>; with that
  text as the maximum the page shows no course, and with the bound removed it shows both.
\<close>

theorem unparseable_bound_is_not_absent:
  "parseInt ''abc'' = None \<and>
   filtered exampleHost ((initialFilters Grid) \<lparr> durationMax := ''abc'' \<rparr>) [course1, course2] = [] \<and>
   filtered exampleHost ((initialFilters Grid) \<lparr> durationMax := [] \<rparr>) [course1, course2] =
     [course1, course2]"
  by code_simp

lemma filter_geNum_NaN: "filter (\<lambda>c. geNum (duration c) None) xs = []"
  by (induction xs) simp_all

lemma filter_leNum_NaN: "filter (\<lambda>c. leNum (duration c) None) xs = []"
  by (induction xs) simp_all

lemma applyFilters_max_NaN:
  assumes "durationMax filters \<noteq> []" and "parseInt (durationMax filters) = None"
  shows "applyFilters h filters courses = []"
  unfolding applyFilters_def Let_def
  by (simp only: assms if_True not_False_eq_True filter_leNum_NaN)

lemma applyFilters_min_NaN:
  assumes "durationMin filters \<noteq> []" and "parseInt (durationMin filters) = None"
  shows "applyFilters h filters courses = []"
  unfolding applyFilters_def Let_def
  by (simp only: assms if_True not_False_eq_True filter_geNum_NaN filter.simps if_cancel)

text \<open>
  C5, amended. A bound of the duration is absent only when its text is empty. When the
  text of the minimum or of the maximum is not empty and \<^verbatim>\<open>parseInt\<close> reads no number
  in it, every comparison with it is false and the page shows no course at all; nothing
  is thrown.
\<close>

theorem unparseable_bound_excludes_all:
  assumes "(durationMin filters \<noteq> [] \<and> parseInt (durationMin filters) = None) \<or>
           (durationMax filters \<noteq> [] \<and> parseInt (durationMax filters) = None)"
  shows "filtered h filters courses = []"
proof -
  have "applyFilters h filters courses = []"
    using assms applyFilters_min_NaN applyFilters_max_NaN by blast
  then show ?thesis by (simp add: filtered_def sortJs_def)
qed

theorem unparseable_bound_excludes_all_witness:
  "durationMin ((initialFilters ListView) \<lparr> durationMin := ''.5'' \<rparr>) \<noteq> [] \<and>
   parseInt ''.5'' = None \<and>
   filtered exampleHost ((initialFilters ListView) \<lparr> durationMin := ''.5'' \<rparr>)
     [course1, course2, course3] = []"
proof -
  have p: "parseInt ''.5'' = None"
    by code_simp
  have m: "durationMin ((initialFilters ListView) \<lparr> durationMin := ''.5'' \<rparr>) = ''.5''"
    by simp
  from unparseable_bound_excludes_all [of "(initialFilters ListView) \<lparr> durationMin := ''.5'' \<rparr>"
      exampleHost "[course1, course2, course3]"] p m
  show ?thesis by simp
qed

section \<open>Reordering\<close>

lemma actualStart_in_range:
  assumes "len \<noteq> 0" and "start < int len"
  shows "actualStart start len < len"
  using assms by (auto simp: actualStart_def)

lemma spliceRemove_in_range:
  assumes "s < length xs" and "actualStart start (length xs) = s"
  shows "spliceRemove start xs = ([xs ! s], take s xs @ drop (Suc s) xs)"
proof -
  have "drop s xs = xs ! s # drop (Suc s) xs"
    using assms(1) by (simp add: Cons_nth_drop_Suc)
  then have "take 1 (drop s xs) = [xs ! s]" by simp
  with assms(2) show ?thesis by (simp add: spliceRemove_def Let_def)
qed

lemma mset_spliceInsert: "mset (spliceInsert start item xs) = add_mset item (mset xs)"
proof -
  let ?s = "actualStart start (length xs)"
  have "mset (take ?s xs) + mset (drop ?s xs) = mset (take ?s xs @ drop ?s xs)"
    by (simp only: mset_append)
  then have "mset (take ?s xs) + mset (drop ?s xs) = mset xs"
    by (simp only: append_take_drop_id)
  then show ?thesis by (simp add: spliceInsert_def Let_def)
qed

lemma mset_remove_nth:
  assumes "s < length xs"
  shows "add_mset (xs ! s) (mset (take s xs @ drop (Suc s) xs)) = mset xs"
proof -
  have "xs = take s xs @ xs ! s # drop (Suc s) xs"
    using assms by (rule id_take_nth_drop)
  then have "mset xs = mset (take s xs @ xs ! s # drop (Suc s) xs)" by simp
  then show ?thesis by simp
qed

text \<open>
  C8, as the claim states it, fails. With a start index beyond the end nothing is
  removed, and \<^verbatim>\<open>undefined\<close> is inserted: the array of two courses has three elements
  afterwards.
\<close>

theorem reorder_beyond_end_inserts_undefined:
  "reorder 5 0 [Some course1, Some course2] = [None, Some course1, Some course2]"
  by code_simp

text \<open>
  C8, amended. When the list is not empty and the start index is below its length,
  \<^verbatim>\<open>reorder\<close> returns the same records, each as often as before, and so a list of the
  same length: the end index may be any integer (\<^verbatim>\<open>splice\<close> clamps it), and a negative
  start index counts from the end (clamped to the first element).
\<close>

theorem reorder_keeps_records:
  assumes "prevCourses \<noteq> []" and "startIndex < int (length prevCourses)"
  shows "mset (reorder startIndex endIndex prevCourses) = mset prevCourses \<and>
         length (reorder startIndex endIndex prevCourses) = length prevCourses"
proof -
  let ?s = "actualStart startIndex (length prevCourses)"
  have s: "?s < length prevCourses"
    using assms by (intro actualStart_in_range) simp_all
  have r: "spliceRemove startIndex prevCourses =
      ([prevCourses ! ?s], take ?s prevCourses @ drop (Suc ?s) prevCourses)"
    using s by (rule spliceRemove_in_range) simp
  have "reorder startIndex endIndex prevCourses =
      spliceInsert endIndex (prevCourses ! ?s) (take ?s prevCourses @ drop (Suc ?s) prevCourses)"
    by (simp add: reorder_def r)
  then have m: "mset (reorder startIndex endIndex prevCourses) = mset prevCourses"
    using mset_remove_nth [OF s] by (simp only: mset_spliceInsert)
  then have "size (mset (reorder startIndex endIndex prevCourses)) = size (mset prevCourses)"
    by (simp only:)
  then have "length (reorder startIndex endIndex prevCourses) = length prevCourses"
    by (simp only: size_mset)
  with m show ?thesis by (intro conjI)
qed

theorem reorder_keeps_records_witness:
  "[Some course1, Some course2, Some course3] \<noteq> [] \<and>
   (- 7) < int (length [Some course1, Some course2, Some course3]) \<and>
   reorder (- 7) 9 [Some course1, Some course2, Some course3] =
     [Some course2, Some course3, Some course1] \<and>
   mset [Some course2, Some course3, Some course1] = mset [Some course1, Some course2, Some course3]"
proof -
  have n: "[Some course1, Some course2, Some course3] \<noteq> []" by simp
  have l: "(- 7) < int (length [Some course1, Some course2, Some course3])" by simp
  have e: "reorder (- 7) 9 [Some course1, Some course2, Some course3] =
     [Some course2, Some course3, Some course1]"
    by code_simp
  from reorder_keeps_records [OF n l, of 9] show ?thesis
    unfolding e using n l by simp
qed

section \<open>Dragging while a filter is active\<close>

text \<open>
  C6. The page shows the published courses only, \<open>course2\<close> then \<open>course4\<close>, of the four
  that the context holds, and \<open>course2\<close> is dropped on \<open>course4\<close>. The indices 0 and 1 of
  the two in the shown list are given to \<^verbatim>\<open>reorder\<close>, which applies them to all courses:
  the two hidden courses change places, and the page shows \<open>course2\<close> then \<open>course4\<close> as
  before. Without a filter the same drag does move \<open>course2\<close> behind \<open>course4\<close>.
\<close>

theorem drag_under_filter_moves_hidden_courses:
  "filtered exampleHost ((initialFilters Drag) \<lparr> fstatus := OnlyStatus Published \<rparr>)
     [course1, course3, course2, course4] = [course2, course4] \<and>
   handleDragEnd exampleHost ((initialFilters Drag) \<lparr> fstatus := OnlyStatus Published \<rparr>)
     ''2'' (Some ''4'') [course1, course3, course2, course4] =
     [Some course3, Some course1, Some course2, Some course4] \<and>
   filtered exampleHost ((initialFilters Drag) \<lparr> fstatus := OnlyStatus Published \<rparr>)
     [course3, course1, course2, course4] = [course2, course4] \<and>
   handleDragEnd exampleHost (initialFilters Drag)
     ''2'' (Some ''4'') [course1, course3, course2, course4] =
     [Some course1, Some course3, Some course4, Some course2]"
  by code_simp

end
